theory Spec2Isabelle
  imports Main "HOL-Library.Multiset"
begin

section \<open>Python values used by logcode.py\<close>

text \<open>
  A Python \<open>str\<close> is a sequence of Unicode code points; it is modelled as a list of
  natural numbers, one per code point, so that \<open>len\<close>, \<open>strip\<close> and \<open>split\<close> count
  what Python counts. \<open>py\<close> turns an ASCII literal into such a string and \<open>TAB\<close> is
  the code point of \<open>"\t"\<close>.
\<close>

type_synonym pystr = "nat list"

definition py :: "string \<Rightarrow> pystr" where
  "py s = map of_char s"

definition TAB :: nat where
  "TAB = 9"

text \<open>
  \<open>str.isspace\<close> for one code point: the white-space table of CPython
  (\<open>_PyUnicode_IsWhitespace\<close>). Tab, newline and carriage return are in it.
\<close>

definition isspace :: "nat \<Rightarrow> bool" where
  "isspace c =
     ((9 \<le> c \<and> c \<le> 13) \<or> (28 \<le> c \<and> c \<le> 32) \<or> c = 133 \<or> c = 160 \<or> c = 5760 \<or>
      (8192 \<le> c \<and> c \<le> 8202) \<or> c = 8232 \<or> c = 8233 \<or> c = 8239 \<or> c = 8287 \<or> c = 12288)"

text \<open>\<open>s.strip()\<close>: leading and trailing white space removed.\<close>

definition strip :: "pystr \<Rightarrow> pystr" where
  "strip s = rev (dropWhile isspace (rev (dropWhile isspace s)))"

text \<open>
  \<open>s.split("\t")\<close>: the pieces between tab characters. The empty string gives one
  empty piece, and \<open>n\<close> tabs give \<open>n + 1\<close> pieces.
\<close>

fun split_tab :: "pystr \<Rightarrow> pystr list" where
  "split_tab [] = [[]]"
| "split_tab (c # cs) =
     (if c = TAB then [] # split_tab cs
      else (case split_tab cs of
              [] \<Rightarrow> [[c]]
            | p # ps \<Rightarrow> (c # p) # ps))"

text \<open>\<open>s.endswith(suf)\<close>.\<close>

definition endswith :: "pystr \<Rightarrow> pystr \<Rightarrow> bool" where
  "endswith s suf = (length suf \<le> length s \<and> drop (length s - length suf) s = suf)"

text \<open>
  A \<open>datetime\<close> as \<open>dateutil.parser.parse\<close> returns it: naive (no time zone in the
  text) or aware. \<open>Naive t\<close> holds the wall-clock time in microseconds; \<open>Aware t off\<close>
  holds the wall-clock time and the UTC offset of its \<open>tzinfo\<close>, both in microseconds.
  \<open>instant\<close> is the point in time a datetime is ordered by when a comparison returns:
  the wall-clock time of a naive value, the UTC time of an aware one.
\<close>

datatype datetime = Naive int | Aware int int

fun instant :: "datetime \<Rightarrow> int" where
  "instant (Naive a) = a"
| "instant (Aware a off) = a - off"

text \<open>
  The exceptions that can leave the functions of logcode.py: the two
  \<open>HTTPException\<close>s it raises itself (status code and detail), what the datetime
  operations raise (\<open>TypeError\<close> when a naive and an aware value are compared,
  \<open>ValueError\<close> when an aware value has a UTC offset of 24 hours or more), and the
  errors of \<open>os.listdir\<close>, \<open>open\<close> and of reading a file. No handler of the module
  catches the last two kinds.
\<close>

datatype read_error = OSError | UnicodeDecodeError

datatype lib_error = TypeError | ValueError

datatype py_error =
    HTTPException nat string
  | Raised lib_error
  | Uncaught read_error

text \<open>
  The library functions the module calls, taken as parameters:
  \<^item> \<open>parser_parse\<close> is \<open>dateutil.parser.parse\<close>; \<open>None\<close> stands for any exception
    it raises;
  \<^item> \<open>sha1_hexdigest\<close> is \<open>hashlib.sha1(s.encode()).hexdigest()\<close>; \<open>None\<close> stands for
    the \<open>UnicodeEncodeError\<close> of \<open>encode\<close> on a string holding a lone surrogate;
  \<^item> \<open>isoformat\<close> is \<open>datetime.isoformat\<close>: the ISO text, or the exception it
    raises;
  \<^item> \<open>compare_error a b\<close> is the exception that an ordering comparison of \<open>a\<close> (left)
    with \<open>b\<close> (right) raises, if it raises one. Whether it does depends on the
    \<open>tzinfo\<close> objects of the two values (two values sharing one object are compared
    without their offsets being read), which the model does not track.
\<close>

record pylib =
  parser_parse :: "pystr \<Rightarrow> datetime option"
  sha1_hexdigest :: "pystr \<Rightarrow> pystr option"
  isoformat :: "datetime \<Rightarrow> lib_error + pystr"
  compare_error :: "datetime \<Rightarrow> datetime \<Rightarrow> lib_error option"

text \<open>
  \<open>a < b\<close> and \<open>a > b\<close> on datetimes: the exception of the comparison, or the order
  of the two instants.
\<close>

definition dt_lt :: "pylib \<Rightarrow> datetime \<Rightarrow> datetime \<Rightarrow> py_error + bool" where
  "dt_lt L a b =
     (case compare_error L a b of
        Some e \<Rightarrow> Inl (Raised e)
      | None \<Rightarrow> Inr (instant a < instant b))"

definition dt_gt :: "pylib \<Rightarrow> datetime \<Rightarrow> datetime \<Rightarrow> py_error + bool" where
  "dt_gt L a b =
     (case compare_error L a b of
        Some e \<Rightarrow> Inl (Raised e)
      | None \<Rightarrow> Inr (instant b < instant a))"

section \<open>Utility functions\<close>

text \<open>
  A parsed log entry: the dict built by \<open>parse_log_line\<close>. The type parameter is the
  type of the \<open>"timestamp"\<close> value: a \<open>datetime\<close> while the entry is scanned, a string
  once an endpoint has replaced it by its ISO text. The \<open>"id"\<close> key is the field
  \<open>entry_id\<close>.
\<close>

record 't log =
  entry_id :: pystr
  timestamp :: 't
  level :: pystr
  component :: pystr
  message :: pystr

definition generate_log_id :: "pylib \<Rightarrow> pystr \<Rightarrow> pystr option" where
  "generate_log_id L raw_line = sha1_hexdigest L raw_line"

text \<open>
  \<open>parse_log_line\<close>: the stripped line is split on tabs; anything but four parts gives
  \<open>None\<close>. The dict display evaluates \<open>generate_log_id(line)\<close> on the line as passed,
  then \<open>parser.parse(timestamp)\<close>; an exception of either is caught and gives \<open>None\<close>.
\<close>

definition parse_log_line :: "pylib \<Rightarrow> pystr \<Rightarrow> datetime log option" where
  "parse_log_line L line =
     (case split_tab (strip line) of
        [ts, lv, cp, msg] \<Rightarrow>
          (case generate_log_id L line of
             None \<Rightarrow> None
           | Some i \<Rightarrow>
               (case parser_parse L ts of
                  None \<Rightarrow> None
                | Some t \<Rightarrow>
                    Some \<lparr>entry_id = i, timestamp = t, level = lv, component = cp,
                          message = msg\<rparr>))
      | _ \<Rightarrow> None)"

text \<open>
  What the scan finds on disk. \<open>LOG_DIR\<close> is missing, or \<open>os.listdir\<close> raises, or it
  lists names in the order of the listing; each name comes with what \<open>open\<close> and the
  iteration over the file give: the raw lines read (each with its line end, as the
  text file yields them) and, if \<open>open\<close> or a later read raises, the exception that
  ends the reading.
\<close>

type_synonym file_read = "pystr list \<times> read_error option"

datatype log_dir =
    Missing
  | Unlistable read_error
  | Listing "(pystr \<times> file_read) list"

text \<open>
  \<open>read_logs\<close> is a generator: it yields entries one by one and an uncaught exception
  ends it. Its model is the list of the entries yielded, in order, and the exception
  that ended the generator, if any. The consumers below go through the entries first
  and meet the exception after the last of them, as the \<open>for\<close> loops do.
\<close>

fun scan_files :: "pylib \<Rightarrow> (pystr \<times> file_read) list \<Rightarrow> datetime log list \<times> read_error option" where
  "scan_files L [] = ([], None)"
| "scan_files L ((file, (lines, failure)) # rest) =
     (if endswith file (py ''.log'') then
        (case failure of
           Some err \<Rightarrow> (List.map_filter (parse_log_line L) lines, Some err)
         | None \<Rightarrow>
             (case scan_files L rest of
                (logs, r) \<Rightarrow> (List.map_filter (parse_log_line L) lines @ logs, r)))
      else scan_files L rest)"

fun read_logs :: "pylib \<Rightarrow> log_dir \<Rightarrow> datetime log list \<times> read_error option" where
  "read_logs L Missing = ([], None)"
| "read_logs L (Unlistable err) = ([], Some err)"
| "read_logs L (Listing files) = scan_files L files"

section \<open>API endpoints\<close>

text \<open>Truth value of an \<open>Optional[str]\<close>: \<open>None\<close> and the empty string are false.\<close>

definition truthy :: "pystr option \<Rightarrow> bool" where
  "truthy p = (case p of None \<Rightarrow> False | Some s \<Rightarrow> s \<noteq> [])"

text \<open>
  \<open>parser.parse(t) if t else None\<close> inside the \<open>try\<close> of \<open>get_logs\<close>: the outer \<open>None\<close>
  is an exception of the parser, \<open>Some None\<close> is the Python value \<open>None\<close>.
\<close>

definition parse_bound :: "pylib \<Rightarrow> pystr option \<Rightarrow> datetime option option" where
  "parse_bound L t =
     (case t of
        None \<Rightarrow> Some None
      | Some s \<Rightarrow>
          (if s = [] then Some None
           else (case parser_parse L s of None \<Rightarrow> None | Some d \<Rightarrow> Some (Some d))))"

text \<open>
  The copy of an entry with its timestamp replaced by \<open>isoformat()\<close>, or the
  exception \<open>isoformat()\<close> raises.
\<close>

definition iso_copy :: "pylib \<Rightarrow> datetime log \<Rightarrow> py_error + pystr log" where
  "iso_copy L lg =
     (case isoformat L (timestamp lg) of
        Inl e \<Rightarrow> Inl (Raised e)
      | Inr iso_text \<Rightarrow>
          Inr \<lparr>entry_id = entry_id lg, timestamp = iso_text, level = level lg,
               component = component lg, message = message lg\<rparr>)"

text \<open>
  The four \<open>continue\<close> tests of the loop of \<open>get_logs\<close>, in order: \<open>Inr True\<close> when
  one of them fires, \<open>Inr False\<close> when the entry is kept, \<open>Inl\<close> when a datetime
  comparison raises. A datetime is always true as a condition, so \<open>if start_dt and\<close>
  tests \<open>start_dt is not None\<close>.
\<close>

definition skips :: "pylib \<Rightarrow> pystr option \<Rightarrow> pystr option \<Rightarrow> datetime option \<Rightarrow>
    datetime option \<Rightarrow> datetime log \<Rightarrow> py_error + bool" where
  "skips L level_p component_p start_dt end_dt lg =
     (if truthy level_p \<and> Some (level lg) \<noteq> level_p then Inr True
      else if truthy component_p \<and> Some (component lg) \<noteq> component_p then Inr True
      else (case (case start_dt of None \<Rightarrow> Inr False | Some s \<Rightarrow> dt_lt L (timestamp lg) s) of
              Inl e \<Rightarrow> Inl e
            | Inr True \<Rightarrow> Inr True
            | Inr False \<Rightarrow>
                (case end_dt of None \<Rightarrow> Inr False | Some t \<Rightarrow> dt_gt L (timestamp lg) t)))"

text \<open>
  The loop of \<open>get_logs\<close>: an entry that passes the tests is copied, its timestamp made
  ISO text, and appended; an exception of a comparison or of \<open>isoformat()\<close> ends the
  loop at once.
\<close>

fun filter_logs :: "pylib \<Rightarrow> pystr option \<Rightarrow> pystr option \<Rightarrow> datetime option \<Rightarrow> datetime option \<Rightarrow>
    datetime log list \<Rightarrow> read_error option \<Rightarrow> pystr log list \<Rightarrow> py_error + pystr log list" where
  "filter_logs L level_p component_p start_dt end_dt [] failure logs =
     (case failure of Some err \<Rightarrow> Inl (Uncaught err) | None \<Rightarrow> Inr logs)"
| "filter_logs L level_p component_p start_dt end_dt (lg # rest) failure logs =
     (case skips L level_p component_p start_dt end_dt lg of
        Inl e \<Rightarrow> Inl e
      | Inr True \<Rightarrow> filter_logs L level_p component_p start_dt end_dt rest failure logs
      | Inr False \<Rightarrow>
          (case iso_copy L lg of
             Inl e \<Rightarrow> Inl e
           | Inr log_copy \<Rightarrow>
               filter_logs L level_p component_p start_dt end_dt rest failure
                 (logs @ [log_copy])))"

record logs_response =
  logs_count :: nat
  logs :: "pystr log list"

definition get_logs :: "pylib \<Rightarrow> log_dir \<Rightarrow> pystr option \<Rightarrow> pystr option \<Rightarrow> pystr option \<Rightarrow>
    pystr option \<Rightarrow> py_error + logs_response" where
  "get_logs L fs level_p component_p start_time end_time =
     (case parse_bound L start_time of
        None \<Rightarrow> Inl (HTTPException 400 ''Invalid timestamp format'')
      | Some start_dt \<Rightarrow>
          (case parse_bound L end_time of
             None \<Rightarrow> Inl (HTTPException 400 ''Invalid timestamp format'')
           | Some end_dt \<Rightarrow>
               (case read_logs L fs of
                  (entries, failure) \<Rightarrow>
                    (case filter_logs L level_p component_p start_dt end_dt entries failure [] of
                       Inl e \<Rightarrow> Inl e
                     | Inr ls \<Rightarrow> Inr \<lparr>logs_count = length ls, logs = ls\<rparr>))))"

text \<open>\<open>d.get(k, 0)\<close> on a dict of counts.\<close>

definition dict_get :: "(pystr \<rightharpoonup> nat) \<Rightarrow> pystr \<Rightarrow> nat \<Rightarrow> nat" where
  "dict_get d k dflt = (case d k of None \<Rightarrow> dflt | Some v \<Rightarrow> v)"

record log_stats =
  total_logs :: nat
  by_level :: "pystr \<rightharpoonup> nat"
  by_component :: "pystr \<rightharpoonup> nat"

fun count_logs :: "nat \<Rightarrow> (pystr \<rightharpoonup> nat) \<Rightarrow> (pystr \<rightharpoonup> nat) \<Rightarrow> datetime log list \<Rightarrow> log_stats" where
  "count_logs total' level_counts component_counts [] =
     \<lparr>total_logs = total', by_level = level_counts, by_component = component_counts\<rparr>"
| "count_logs total' level_counts component_counts (lg # rest) =
     count_logs (total' + 1)
       (level_counts(level lg \<mapsto> dict_get level_counts (level lg) 0 + 1))
       (component_counts(component lg \<mapsto> dict_get component_counts (component lg) 0 + 1))
       rest"

definition get_log_stats :: "pylib \<Rightarrow> log_dir \<Rightarrow> py_error + log_stats" where
  "get_log_stats L fs =
     (case read_logs L fs of
        (entries, Some err) \<Rightarrow> Inl (Uncaught err)
      | (entries, None) \<Rightarrow> Inr (count_logs 0 Map.empty Map.empty entries))"



section \<open>Notions used to state the properties\<close>




text \<open>The raw lines of all files of a listing whose name ends in \<open>.log\<close>, in scan order.\<close>

definition log_lines :: "(pystr \<times> file_read) list \<Rightarrow> pystr list" where
  "log_lines files = concat (map (\<lambda>f. fst (snd f)) (filter (\<lambda>f. endswith (fst f) (py ''.log'')) files))"

text \<open>A raw line: the fields joined by tabs.\<close>

fun tsv :: "pystr list \<Rightarrow> pystr" where
  "tsv [] = []"
| "tsv [f] = f"
| "tsv (f # g # fs) = f @ TAB # tsv (g # fs)"

section \<open>A small instance of the library, for concrete runs\<close>

text \<open>
  \<open>demo_lib\<close> agrees with dateutil and CPython on the few timestamps used below:
  three naive ones, one with a \<open>Z\<close> suffix and one with the offset \<open>+2500\<close>, which
  dateutil accepts (times in microseconds since 1970). It rejects every other text,
  the empty string included, as dateutil does. An offset is in range when it lies
  strictly between minus and plus 24 hours. \<open>isoformat()\<close> raises \<open>ValueError\<close> on an
  aware value whose offset is out of range. A comparison of two naive values raises
  nothing; so does a comparison of two aware values with the same offset (dateutil
  hands out one \<open>tzinfo\<close> object per fixed offset) or with two offsets in range; any
  other comparison raises \<open>ValueError\<close> when an offset is out of range and \<open>TypeError\<close>
  otherwise. The digest is the identity: the runs below do not depend on it.
\<close>

definition demo_parse :: "pystr \<Rightarrow> datetime option" where
  "demo_parse s =
     (if s = py ''2024-01-01T10:00:00'' then Some (Naive 1704103200000000)
      else if s = py ''2024-01-02T10:00:00'' then Some (Naive 1704189600000000)
      else if s = py ''2024-01-03T10:00:00'' then Some (Naive 1704276000000000)
      else if s = py ''2024-01-01T10:00:00Z'' then Some (Aware 1704103200000000 0)
      else if s = py ''2024-01-01T10:00:00+2500'' then Some (Aware 1704103200000000 90000000000)
      else None)"

definition offset_in_range :: "int \<Rightarrow> bool" where
  "offset_in_range off = (- 86400000000 < off \<and> off < 86400000000)"

definition demo_iso_text :: "datetime \<Rightarrow> pystr" where
  "demo_iso_text d =
     (if d = Naive 1704103200000000 then py ''2024-01-01T10:00:00''
      else if d = Naive 1704189600000000 then py ''2024-01-02T10:00:00''
      else if d = Naive 1704276000000000 then py ''2024-01-03T10:00:00''
      else if d = Aware 1704103200000000 0 then py ''2024-01-01T10:00:00+00:00''
      else [])"

fun demo_iso :: "datetime \<Rightarrow> lib_error + pystr" where
  "demo_iso (Naive a) = Inr (demo_iso_text (Naive a))"
| "demo_iso (Aware a off) =
     (if offset_in_range off then Inr (demo_iso_text (Aware a off)) else Inl ValueError)"

fun demo_compare :: "datetime \<Rightarrow> datetime \<Rightarrow> lib_error option" where
  "demo_compare (Naive a) (Naive b) = None"
| "demo_compare (Naive a) (Aware b ob) =
     (if offset_in_range ob then Some TypeError else Some ValueError)"
| "demo_compare (Aware a oa) (Naive b) =
     (if offset_in_range oa then Some TypeError else Some ValueError)"
| "demo_compare (Aware a oa) (Aware b ob) =
     (if oa = ob \<or> (offset_in_range oa \<and> offset_in_range ob) then None else Some ValueError)"

definition demo_lib :: pylib where
  "demo_lib =
     \<lparr>parser_parse = demo_parse, sha1_hexdigest = Some, isoformat = demo_iso,
      compare_error = demo_compare\<rparr>"

text \<open>
  The two lines of the example of the specification, the first line without its
  line end, with a tab before its line end, with blanks around its fields and with a
  tab in front, and further well-formed lines: a second one, one with an aware
  timestamp and one whose timestamp has the offset \<open>+2500\<close>.
\<close>

definition line_a :: pystr where
  "line_a = tsv [py ''2024-01-01T10:00:00'', py ''ERROR'', py ''auth'', py ''login failed'']
     @ py ''\<newline>''"

definition line_bad :: pystr where
  "line_bad = tsv [py ''bad'', py ''line''] @ py ''\<newline>''"

definition line_a_bare :: pystr where
  "line_a_bare = tsv [py ''2024-01-01T10:00:00'', py ''ERROR'', py ''auth'', py ''login failed'']"

definition line_trailing_tab :: pystr where
  "line_trailing_tab =
     tsv [py ''2024-01-01T10:00:00'', py ''ERROR'', py ''auth'', py ''login failed'',
          py ''\<newline>'']"

definition line_blanks :: pystr where
  "line_blanks =
     tsv [py ''2024-01-01T10:00:00'', py '' ERROR '', py ''Auth'', py ''login failed  '']
     @ py ''\<newline>''"

definition line_b :: pystr where
  "line_b = tsv [py ''2024-01-02T10:00:00'', py ''INFO'', py ''db'', py ''started'']
     @ py ''\<newline>''"

definition line_z :: pystr where
  "line_z = tsv [py ''2024-01-01T10:00:00Z'', py ''INFO'', py ''db'', py ''started'']
     @ py ''\<newline>''"

definition line_leading_tab :: pystr where
  "line_leading_tab = TAB # line_a"

definition line_far :: pystr where
  "line_far = tsv [py ''2024-01-01T10:00:00+2500'', py ''INFO'', py ''db'', py ''started'']
     @ py ''\<newline>''"

definition entry_a :: "datetime log" where
  "entry_a =
     \<lparr>entry_id = line_a, timestamp = Naive 1704103200000000, level = py ''ERROR'',
      component = py ''auth'', message = py ''login failed''\<rparr>"

definition entry_a_bare :: "datetime log" where
  "entry_a_bare =
     \<lparr>entry_id = line_a_bare, timestamp = Naive 1704103200000000, level = py ''ERROR'',
      component = py ''auth'', message = py ''login failed''\<rparr>"

definition entry_b :: "datetime log" where
  "entry_b =
     \<lparr>entry_id = line_b, timestamp = Naive 1704189600000000, level = py ''INFO'',
      component = py ''db'', message = py ''started''\<rparr>"

definition entry_z :: "datetime log" where
  "entry_z =
     \<lparr>entry_id = line_z, timestamp = Aware 1704103200000000 0, level = py ''INFO'',
      component = py ''db'', message = py ''started''\<rparr>"

definition entry_far :: "datetime log" where
  "entry_far =
     \<lparr>entry_id = line_far, timestamp = Aware 1704103200000000 90000000000,
      level = py ''INFO'', component = py ''db'', message = py ''started''\<rparr>"

text \<open>The entries \<open>entry_a\<close> and \<open>entry_b\<close> as the endpoints return them.\<close>

definition json_a :: "pystr log" where
  "json_a =
     \<lparr>entry_id = line_a, timestamp = py ''2024-01-01T10:00:00'', level = py ''ERROR'',
      component = py ''auth'', message = py ''login failed''\<rparr>"


text \<open>
  Directories: the example of the specification (one file with a good and a malformed
  line); two log files and a file that is not a log; a log file that cannot be
  opened, listed before a readable one; a log file with an aware timestamp; a log
  file whose line has the offset \<open>+2500\<close>.
\<close>

definition dir_a :: log_dir where
  "dir_a = Listing [(py ''a.log'', ([line_a, line_bad], None))]"

definition dir_ab :: log_dir where
  "dir_ab =
     Listing [(py ''a.log'', ([line_a, line_bad], None)),
              (py ''notes.txt'', ([line_b], None)),
              (py ''b.log'', ([line_b], None))]"


definition dir_z :: log_dir where
  "dir_z = Listing [(py ''z.log'', ([line_z], None))]"

definition dir_far :: log_dir where
  "dir_far = Listing [(py ''far.log'', ([line_far], None))]"

text \<open>The directory \<open>dir_ab\<close> listed in the opposite order.\<close>

definition dir_ba :: log_dir where
  "dir_ba =
     Listing [(py ''b.log'', ([line_b], None)),
              (py ''notes.txt'', ([line_b], None)),
              (py ''a.log'', ([line_a, line_bad], None))]"

section \<open>Strings: strip and split\<close>

lemma split_tab_not_Nil: "split_tab s \<noteq> []"
  by (induction s) (auto split: list.splits)

lemma tsv_Cons: "ps \<noteq> [] \<Longrightarrow> tsv (p # ps) = p @ TAB # tsv ps"
  by (cases ps) auto

lemma tsv_Cons_head: "tsv ((c # p) # ps) = c # tsv (p # ps)"
  by (cases ps) auto

lemma tsv_split_tab: "tsv (split_tab s) = s"
proof (induction s)
  case Nil
  show ?case by simp
next
  case (Cons c cs)
  show ?case
  proof (cases "c = TAB")
    case True
    with Cons show ?thesis by (simp add: tsv_Cons split_tab_not_Nil)
  next
    case False
    obtain p ps where ps: "split_tab cs = p # ps"
      using split_tab_not_Nil [of cs] by (cases "split_tab cs") auto
    with Cons False show ?thesis by (simp add: tsv_Cons_head)
  qed
qed

lemma split_tab_no_tab: "p \<in> set (split_tab s) \<Longrightarrow> TAB \<notin> set p"
proof (induction s arbitrary: p)
  case Nil
  then show ?case by simp
next
  case (Cons c cs)
  then show ?case
    by (cases "split_tab cs") (auto split: if_splits)
qed

lemma strip_decomp:
  "line = takeWhile isspace line @ strip line @ rev (takeWhile isspace (rev (dropWhile isspace line)))"
proof -
  let ?d = "dropWhile isspace line"
  have "rev ?d = takeWhile isspace (rev ?d) @ dropWhile isspace (rev ?d)"
    by simp
  then have "rev (rev ?d) = rev (takeWhile isspace (rev ?d) @ dropWhile isspace (rev ?d))"
    by (rule arg_cong)
  then have "?d = strip line @ rev (takeWhile isspace (rev ?d))"
    by (simp only: rev_rev_ident rev_append strip_def)
  then have "takeWhile isspace line @ ?d = takeWhile isspace line @ strip line @ rev (takeWhile isspace (rev ?d))"
    by (rule arg_cong)
  then show ?thesis by (simp only: takeWhile_dropWhile_id)
qed

lemma strip_last: "strip s \<noteq> [] \<Longrightarrow> \<not> isspace (last (strip s))"
  unfolding strip_def by (simp add: last_rev hd_dropWhile)

lemma strip_hd: "strip s \<noteq> [] \<Longrightarrow> \<not> isspace (hd (strip s))"
proof -
  assume ne: "strip s \<noteq> []"
  let ?d = "dropWhile isspace s"
  have d: "?d \<noteq> []"
  proof
    assume "?d = []"
    then have "strip s = []" by (simp only: strip_def rev.simps dropWhile.simps)
    with ne show False by simp
  qed
  have h: "\<not> isspace (hd ?d)" using d by (rule hd_dropWhile)
  have "takeWhile isspace s @ ?d = takeWhile isspace s @ strip s @ rev (takeWhile isspace (rev ?d))"
    using strip_decomp [of s] by (simp only: takeWhile_dropWhile_id)
  then have "?d = strip s @ rev (takeWhile isspace (rev ?d))"
    by (simp only: same_append_eq)
  then have "hd ?d = hd (strip s)" using ne by (metis hd_append2)
  with h show ?thesis by simp
qed

lemma parse_log_line_Some:
  "parse_log_line L line = Some e \<Longrightarrow>
     \<exists>ts t. split_tab (strip line) = [ts, level e, component e, message e] \<and>
       sha1_hexdigest L line = Some (entry_id e) \<and> parser_parse L ts = Some t \<and> timestamp e = t"
  by (auto simp: parse_log_line_def generate_log_id_def split: list.splits option.splits)

section \<open>Concrete runs of the parser\<close>

lemmas demo_defs = parse_log_line_def generate_log_id_def strip_def isspace_def py_def TAB_def
  demo_lib_def demo_parse_def

lemma parse_line_a: "parse_log_line demo_lib line_a = Some entry_a"
  by (simp add: demo_defs line_a_def entry_a_def)

lemma parse_line_bad: "parse_log_line demo_lib line_bad = None"
  by (simp add: demo_defs line_bad_def)

lemma parse_line_a_bare: "parse_log_line demo_lib line_a_bare = Some entry_a_bare"
  by (simp add: demo_defs line_a_bare_def entry_a_bare_def)

text \<open>
  A tab in front of a good line is removed with the other white space at the ends:
  the line is parsed, and its fields are those of the line without the tab.
\<close>

lemma parse_line_leading_tab:
  "parse_log_line demo_lib line_leading_tab = Some (entry_a\<lparr>entry_id := line_leading_tab\<rparr>)"
  by (simp add: demo_defs line_leading_tab_def line_a_def entry_a_def)

section \<open>The entry parser\<close>

text \<open>
  Claim C2, as the code has it: a line whose stripped text does not split on tabs into
  exactly four parts is rejected, \<open>parse_log_line\<close> returns \<open>None\<close> and raises nothing.
  The parts are counted after \<open>strip()\<close>, not on the raw line.
\<close>

theorem parse_log_line_field_count:
  "length (split_tab (strip line)) \<noteq> 4 \<Longrightarrow> parse_log_line L line = None"
  by (auto simp: parse_log_line_def split: list.splits)

theorem parse_log_line_field_count_witness:
  "length (split_tab (strip line_bad)) \<noteq> 4 \<and> parse_log_line demo_lib line_bad = None"
proof -
  have h: "length (split_tab (strip line_bad)) \<noteq> 4"
    by (simp add: line_bad_def strip_def isspace_def py_def TAB_def)
  from h parse_log_line_field_count [OF h, of demo_lib] show ?thesis by simp
qed

text \<open>
  Claim C2 as worded counts the parts of the raw line. A well-formed line with a tab
  before its line end has five parts when split raw, yet it is parsed: \<open>strip()\<close>
  removes the trailing tab and line end first.
\<close>

theorem raw_field_count_counterexample:
  "length (split_tab line_trailing_tab) = 5 \<and>
   parse_log_line demo_lib line_trailing_tab =
     Some \<lparr>entry_id = line_trailing_tab, timestamp = Naive 1704103200000000,
       level = py ''ERROR'', component = py ''auth'', message = py ''login failed''\<rparr>"
  by (simp add: demo_defs line_trailing_tab_def)

text \<open>
  Claim C3: the id of a parsed entry is the SHA-1 hex digest of the line exactly as
  passed, line end included; so two parsed lines get the same id exactly when they are
  the same line, provided the digest does not collide on them.
\<close>

theorem parse_log_line_id:
  assumes "parse_log_line L l1 = Some e1" and "parse_log_line L l2 = Some e2"
    and "sha1_hexdigest L l1 = sha1_hexdigest L l2 \<longrightarrow> l1 = l2"
  shows "sha1_hexdigest L l1 = Some (entry_id e1) \<and> (entry_id e1 = entry_id e2 \<longleftrightarrow> l1 = l2)"
proof -
  from assms(1) have a: "sha1_hexdigest L l1 = Some (entry_id e1)"
    using parse_log_line_Some by blast
  from assms(2) have b: "sha1_hexdigest L l2 = Some (entry_id e2)"
    using parse_log_line_Some by blast
  from a b assms show ?thesis by auto
qed

theorem parse_log_line_id_witness:
  "parse_log_line demo_lib line_a = Some entry_a \<and>
   parse_log_line demo_lib line_a_bare = Some entry_a_bare \<and>
   line_a = line_a_bare @ py ''\<newline>'' \<and>
   sha1_hexdigest demo_lib line_a = Some (entry_id entry_a) \<and>
   entry_id entry_a \<noteq> entry_id entry_a_bare"
proof -
  have ne: "line_a \<noteq> line_a_bare" by (simp add: line_a_def line_a_bare_def py_def)
  then have inj: "sha1_hexdigest demo_lib line_a = sha1_hexdigest demo_lib line_a_bare \<longrightarrow> line_a = line_a_bare"
    by (simp add: demo_lib_def)
  from parse_log_line_id [OF parse_line_a parse_line_a_bare inj] ne parse_line_a parse_line_a_bare
  show ?thesis by (simp add: line_a_def line_a_bare_def entry_a_def)
qed

text \<open>
  Claim C8, as the code has it: a parsed raw line is white space, the timestamp text,
  a tab, the level, a tab, the component, a tab, the message, and white space again.
  The two runs of white space are what \<open>strip()\<close> removes from the ends of the line;
  they may hold tabs. None of the four fields holds a tab, the timestamp text does not
  start with white space, and the message is not empty and does not end in white
  space. So level and component are pieces of the raw line taken unchanged, and the
  message is taken unchanged but for the white space at the end of the line.
\<close>

theorem parse_log_line_fields:
  assumes "parse_log_line L line = Some e"
  shows "\<exists>pre ts post.
     line = pre @ ts @ TAB # level e @ TAB # component e @ TAB # message e @ post \<and>
     strip line = ts @ TAB # level e @ TAB # component e @ TAB # message e \<and>
     (\<forall>c \<in> set pre. isspace c) \<and> (\<forall>c \<in> set post. isspace c) \<and>
     TAB \<notin> set ts \<and> TAB \<notin> set (level e) \<and> TAB \<notin> set (component e) \<and> TAB \<notin> set (message e) \<and>
     ts \<noteq> [] \<and> \<not> isspace (hd ts) \<and>
     message e \<noteq> [] \<and> \<not> isspace (last (message e))"
proof -
  from assms obtain ts where sp: "split_tab (strip line) = [ts, level e, component e, message e]"
    using parse_log_line_Some by blast
  have "tsv (split_tab (strip line)) = strip line" by (rule tsv_split_tab)
  with sp have st: "strip line = ts @ TAB # level e @ TAB # component e @ TAB # message e"
    by simp
  have notab: "TAB \<notin> set ts" "TAB \<notin> set (level e)" "TAB \<notin> set (component e)" "TAB \<notin> set (message e)"
    using split_tab_no_tab [of _ "strip line"] sp by simp_all
  have ne: "strip line \<noteq> []" using st by simp
  have sl: "\<not> isspace (last (strip line))" using ne by (rule strip_last)
  have sh: "\<not> isspace (hd (strip line))" using ne by (rule strip_hd)
  have tabsp: "isspace TAB" by (simp add: isspace_def TAB_def)
  have msg: "message e \<noteq> []"
  proof
    assume "message e = []"
    with st have "last (strip line) = TAB" by simp
    with sl tabsp show False by simp
  qed
  with st have "last (strip line) = last (message e)" by simp
  with sl have lm: "\<not> isspace (last (message e))" by simp
  have tsne: "ts \<noteq> []"
  proof
    assume "ts = []"
    with st have "hd (strip line) = TAB" by simp
    with sh tabsp show False by simp
  qed
  with st have "hd (strip line) = hd ts" by simp
  with sh have ht: "\<not> isspace (hd ts)" by simp
  let ?pre = "takeWhile isspace line"
  let ?post = "rev (takeWhile isspace (rev (dropWhile isspace line)))"
  have "line = ?pre @ strip line @ ?post" by (rule strip_decomp)
  with st have "line = ?pre @ ts @ TAB # level e @ TAB # component e @ TAB # message e @ ?post"
    by simp
  moreover have "\<forall>c \<in> set ?pre. isspace c" by (auto dest: set_takeWhileD)
  moreover have "\<forall>c \<in> set ?post. isspace c" by (auto dest: set_takeWhileD)
  ultimately show ?thesis using st notab msg lm tsne ht by blast
qed

theorem parse_log_line_fields_witness:
  "parse_log_line demo_lib line_leading_tab = Some (entry_a\<lparr>entry_id := line_leading_tab\<rparr>) \<and>
   (\<exists>pre ts post.
     line_leading_tab =
       pre @ ts @ TAB # py ''ERROR'' @ TAB # py ''auth'' @ TAB # py ''login failed'' @ post \<and>
     strip line_leading_tab =
       ts @ TAB # py ''ERROR'' @ TAB # py ''auth'' @ TAB # py ''login failed'' \<and>
     (\<forall>c \<in> set pre. isspace c) \<and> (\<forall>c \<in> set post. isspace c))"
proof -
  have h: "parse_log_line demo_lib line_leading_tab = Some (entry_a\<lparr>entry_id := line_leading_tab\<rparr>)"
    by (rule parse_line_leading_tab)
  from parse_log_line_fields [OF h] obtain pre ts post where
    "line_leading_tab = pre @ ts @ TAB # level (entry_a\<lparr>entry_id := line_leading_tab\<rparr>) @
        TAB # component (entry_a\<lparr>entry_id := line_leading_tab\<rparr>) @
        TAB # message (entry_a\<lparr>entry_id := line_leading_tab\<rparr>) @ post"
    "strip line_leading_tab = ts @ TAB # level (entry_a\<lparr>entry_id := line_leading_tab\<rparr>) @
        TAB # component (entry_a\<lparr>entry_id := line_leading_tab\<rparr>) @
        TAB # message (entry_a\<lparr>entry_id := line_leading_tab\<rparr>)"
    "\<forall>c \<in> set pre. isspace c" "\<forall>c \<in> set post. isspace c" by blast
  then have "line_leading_tab =
       pre @ ts @ TAB # py ''ERROR'' @ TAB # py ''auth'' @ TAB # py ''login failed'' @ post \<and>
     strip line_leading_tab =
       ts @ TAB # py ''ERROR'' @ TAB # py ''auth'' @ TAB # py ''login failed'' \<and>
     (\<forall>c \<in> set pre. isspace c) \<and> (\<forall>c \<in> set post. isspace c)"
    by (simp add: entry_a_def)
  with h show ?thesis by blast
qed

text \<open>
  Claim C8 as worded allows no trimming beyond the split on tabs. Blanks at the end of
  the message are lost: the fourth tab-separated part of the raw line ends in two
  blanks and the line end, the message of the entry does not. Blanks around the level
  stay.
\<close>

theorem message_trimmed_counterexample:
  "split_tab line_blanks =
     [py ''2024-01-01T10:00:00'', py '' ERROR '', py ''Auth'', py ''login failed  '' @ py ''\<newline>''] \<and>
   map_option message (parse_log_line demo_lib line_blanks) = Some (py ''login failed'') \<and>
   py ''login failed'' \<noteq> py ''login failed  ''"
  by (simp add: demo_defs line_blanks_def)

section \<open>The scan and the loops of the endpoints\<close>


lemma count_list_map_filter: "count_list (map f xs) k = length (filter (\<lambda>x. f x = k) xs)"
  by (induction xs) auto

lemma count_logs_total: "total_logs (count_logs t lc cc es) = t + length es"
  by (induction es arbitrary: t lc cc) auto

lemma count_logs_by_level:
  "by_level (count_logs t lc cc es) k =
     (if k \<in> level ` set es
      then Some (dict_get lc k 0 + length (filter (\<lambda>lg. level lg = k) es))
      else lc k)"
proof (induction es arbitrary: t lc cc)
  case Nil
  show ?case by simp
next
  case (Cons e es)
  show ?case
    by (auto simp: Cons dict_get_def image_iff filter_empty_conv)
qed

lemma count_logs_by_component:
  "by_component (count_logs t lc cc es) k =
     (if k \<in> component ` set es
      then Some (dict_get cc k 0 + length (filter (\<lambda>lg. component lg = k) es))
      else cc k)"
proof (induction es arbitrary: t lc cc)
  case Nil
  show ?case by simp
next
  case (Cons e es)
  show ?case
    by (auto simp: Cons dict_get_def image_iff filter_empty_conv)
qed

lemma sum_length_filter:
  "(\<Sum>k \<in> f ` set xs. length (filter (\<lambda>x. f x = k) xs)) = length xs"
proof -
  have "sum (count_list (map f xs)) (set (map f xs)) = length (map f xs)"
    by (rule sum_count_set) simp_all
  then show ?thesis by (simp add: count_list_map_filter)
qed

lemma stats_closed_form:
  "count_logs 0 Map.empty Map.empty es =
     \<lparr>total_logs = length es,
      by_level = (\<lambda>k. if k \<in> level ` set es
                       then Some (length (filter (\<lambda>lg. level lg = k) es)) else None),
      by_component = (\<lambda>k. if k \<in> component ` set es
                       then Some (length (filter (\<lambda>lg. component lg = k) es)) else None)\<rparr>"
  by (rule log_stats.equality)
     (simp_all add: count_logs_total count_logs_by_level count_logs_by_component dict_get_def fun_eq_iff)

lemma map_filter_app:
  "List.map_filter f (xs @ ys) = List.map_filter f xs @ List.map_filter f ys"
  by (simp add: List.map_filter_def)

lemma scan_files_entries:
  "fst (scan_files L files) = List.map_filter (parse_log_line L) (log_lines files) \<or> snd (scan_files L files) \<noteq> None"
  by (induction L files rule: scan_files.induct)
     (auto simp: log_lines_def map_filter_app split: prod.splits option.splits)



lemma stats_of_entries:
  assumes "st = count_logs 0 Map.empty Map.empty es"
  shows "total_logs st = length es"
    and "by_level st k =
         (if k \<in> level ` set es then Some (length (filter (\<lambda>lg. level lg = k) es)) else None)"
    and "by_component st k =
         (if k \<in> component ` set es then Some (length (filter (\<lambda>lg. component lg = k) es)) else None)"
    and "(\<Sum>k \<in> dom (by_level st). the (by_level st k)) = length es"
    and "(\<Sum>k \<in> dom (by_component st). the (by_component st k)) = length es"
proof -
  show t: "total_logs st = length es"
    by (simp add: assms count_logs_total)
  show l: "by_level st k =
         (if k \<in> level ` set es then Some (length (filter (\<lambda>lg. level lg = k) es)) else None)" for k
    by (simp add: assms count_logs_by_level dict_get_def)
  show c: "by_component st k =
         (if k \<in> component ` set es then Some (length (filter (\<lambda>lg. component lg = k) es)) else None)" for k
    by (simp add: assms count_logs_by_component dict_get_def)
  have dl: "dom (by_level st) = level ` set es"
    by (auto simp: dom_def l split: if_splits)
  have dc: "dom (by_component st) = component ` set es"
    by (auto simp: dom_def c split: if_splits)
  have "(\<Sum>k \<in> level ` set es. the (by_level st k)) = (\<Sum>k \<in> level ` set es. length (filter (\<lambda>lg. level lg = k) es))"
    by (rule sum.cong) (simp_all add: l)
  then show "(\<Sum>k \<in> dom (by_level st). the (by_level st k)) = length es"
    by (simp only: dl sum_length_filter)
  have "(\<Sum>k \<in> component ` set es. the (by_component st k)) = (\<Sum>k \<in> component ` set es. length (filter (\<lambda>lg. component lg = k) es))"
    by (rule sum.cong) (simp_all add: c)
  then show "(\<Sum>k \<in> dom (by_component st). the (by_component st k)) = length es"
    by (simp only: dc sum_length_filter)
qed

lemma get_log_stats_Inr:
  "get_log_stats L fs = Inr st \<longleftrightarrow>
     snd (read_logs L fs) = None \<and> st = count_logs 0 Map.empty Map.empty (fst (read_logs L fs))"
  by (cases "read_logs L fs") (auto simp: get_log_stats_def split: option.splits)

lemma read_logs_lines:
  "snd (read_logs L (Listing files)) = None \<Longrightarrow>
     fst (read_logs L (Listing files)) = List.map_filter (parse_log_line L) (log_lines files)"
  using scan_files_entries [of L files] by simp

section \<open>Concrete runs of the scan\<close>

lemma endswith_a: "endswith (py ''a.log'') (py ''.log'')"
  by (simp add: endswith_def py_def)
lemma endswith_b: "endswith (py ''b.log'') (py ''.log'')"
  by (simp add: endswith_def py_def)
lemma endswith_z: "endswith (py ''z.log'') (py ''.log'')"
  by (simp add: endswith_def py_def)
lemma endswith_notes: "\<not> endswith (py ''notes.txt'') (py ''.log'')"
  by (simp add: endswith_def py_def)

lemma parse_line_b: "parse_log_line demo_lib line_b = Some entry_b"
  by (simp add: demo_defs line_b_def entry_b_def)

lemma parse_line_z: "parse_log_line demo_lib line_z = Some entry_z"
  by (simp add: demo_defs line_z_def entry_z_def)

lemma read_dir_a: "read_logs demo_lib dir_a = ([entry_a], None)"
  by (simp add: dir_a_def endswith_a parse_line_a parse_line_bad)

lemma read_dir_ab: "read_logs demo_lib dir_ab = ([entry_a, entry_b], None)"
  by (simp add: dir_ab_def endswith_a endswith_b endswith_notes parse_line_a parse_line_bad parse_line_b)


lemma read_dir_z: "read_logs demo_lib dir_z = ([entry_z], None)"
  by (simp add: dir_z_def endswith_z parse_line_z)

lemma endswith_far: "endswith (py ''far.log'') (py ''.log'')"
  by (simp add: endswith_def py_def)

lemma parse_line_far: "parse_log_line demo_lib line_far = Some entry_far"
  by (simp add: demo_defs line_far_def entry_far_def)

lemma read_dir_far: "read_logs demo_lib dir_far = ([entry_far], None)"
  by (simp add: dir_far_def endswith_far parse_line_far)

lemma iso_entry_a: "isoformat demo_lib (timestamp entry_a) = Inr (py ''2024-01-01T10:00:00'')"
  by (simp add: demo_lib_def entry_a_def demo_iso_text_def)


lemma iso_copy_entry_a: "iso_copy demo_lib entry_a = Inr json_a"
  by (simp add: iso_copy_def iso_entry_a) (simp add: entry_a_def json_a_def)



section \<open>The endpoints\<close>




text \<open>
  Claim C6: \<open>get_log_stats\<close> returns a result whenever the scan raises nothing, and
  its result counts every entry the scan yields once, unfiltered: the total is the
  number of entries (for a listing: of the lines of the \<open>.log\<close> files that parse), each
  level and each component string is a key exactly when an entry carries it, with the
  number of such entries as its value, and the values of either dict sum to the total.
\<close>

theorem get_log_stats_counts:
  "(snd (read_logs L fs) = None \<longrightarrow> (\<exists>st. get_log_stats L fs = Inr st)) \<and>
   (\<forall>st. get_log_stats L fs = Inr st \<longrightarrow>
      total_logs st = length (fst (read_logs L fs)) \<and>
      (\<forall>files. fs = Listing files \<longrightarrow>
         fst (read_logs L fs) = List.map_filter (parse_log_line L) (log_lines files)) \<and>
      (\<forall>k. by_level st k =
         (if k \<in> level ` set (fst (read_logs L fs))
          then Some (length (filter (\<lambda>lg. level lg = k) (fst (read_logs L fs)))) else None)) \<and>
      (\<forall>k. by_component st k =
         (if k \<in> component ` set (fst (read_logs L fs))
          then Some (length (filter (\<lambda>lg. component lg = k) (fst (read_logs L fs)))) else None)) \<and>
      (\<Sum>k \<in> dom (by_level st). the (by_level st k)) = total_logs st \<and>
      (\<Sum>k \<in> dom (by_component st). the (by_component st k)) = total_logs st)"
proof (intro conjI allI impI)
  assume "snd (read_logs L fs) = None"
  then show "\<exists>st. get_log_stats L fs = Inr st"
    by (simp add: get_log_stats_Inr)
next
  fix st assume "get_log_stats L fs = Inr st"
  then have "st = count_logs 0 Map.empty Map.empty (fst (read_logs L fs))"
    by (simp add: get_log_stats_Inr)
  then show "total_logs st = length (fst (read_logs L fs))"
    by (rule stats_of_entries)
next
  fix st files assume "get_log_stats L fs = Inr st" and "fs = Listing files"
  then show "fst (read_logs L fs) = List.map_filter (parse_log_line L) (log_lines files)"
    by (simp only: get_log_stats_Inr read_logs_lines)
next
  fix st k assume "get_log_stats L fs = Inr st"
  then have "st = count_logs 0 Map.empty Map.empty (fst (read_logs L fs))"
    by (simp add: get_log_stats_Inr)
  then show "by_level st k =
         (if k \<in> level ` set (fst (read_logs L fs))
          then Some (length (filter (\<lambda>lg. level lg = k) (fst (read_logs L fs)))) else None)"
    by (rule stats_of_entries)
next
  fix st k assume "get_log_stats L fs = Inr st"
  then have "st = count_logs 0 Map.empty Map.empty (fst (read_logs L fs))"
    by (simp add: get_log_stats_Inr)
  then show "by_component st k =
         (if k \<in> component ` set (fst (read_logs L fs))
          then Some (length (filter (\<lambda>lg. component lg = k) (fst (read_logs L fs)))) else None)"
    by (rule stats_of_entries)
next
  fix st assume "get_log_stats L fs = Inr st"
  then have e: "st = count_logs 0 Map.empty Map.empty (fst (read_logs L fs))"
    by (simp add: get_log_stats_Inr)
  show "(\<Sum>k \<in> dom (by_level st). the (by_level st k)) = total_logs st"
    by (simp only: stats_of_entries(1,4) [OF e])
next
  fix st assume "get_log_stats L fs = Inr st"
  then have e: "st = count_logs 0 Map.empty Map.empty (fst (read_logs L fs))"
    by (simp add: get_log_stats_Inr)
  show "(\<Sum>k \<in> dom (by_component st). the (by_component st k)) = total_logs st"
    by (simp only: stats_of_entries(1,5) [OF e])
qed

theorem get_log_stats_counts_witness:
  "\<exists>st. get_log_stats demo_lib dir_a = Inr st \<and> total_logs st = 1 \<and>
     by_level st (py ''ERROR'') = Some 1 \<and> by_level st (py ''INFO'') = None \<and>
     by_component st (py ''auth'') = Some 1 \<and>
     (\<Sum>k \<in> dom (by_level st). the (by_level st k)) = 1 \<and>
     (\<Sum>k \<in> dom (by_component st). the (by_component st k)) = 1"
proof -
  have r: "snd (read_logs demo_lib dir_a) = None" by (simp add: read_dir_a)
  note inst = get_log_stats_counts [of demo_lib dir_a]
  from inst r obtain st where st: "get_log_stats demo_lib dir_a = Inr st"
    by blast
  from inst st have t: "total_logs st = length (fst (read_logs demo_lib dir_a))"
    by blast
  from inst st have l: "by_level st k =
         (if k \<in> level ` set (fst (read_logs demo_lib dir_a))
          then Some (length (filter (\<lambda>lg. level lg = k) (fst (read_logs demo_lib dir_a)))) else None)" for k
    by blast
  from inst st have c: "by_component st k =
         (if k \<in> component ` set (fst (read_logs demo_lib dir_a))
          then Some (length (filter (\<lambda>lg. component lg = k) (fst (read_logs demo_lib dir_a)))) else None)" for k
    by blast
  from inst st have sl: "(\<Sum>k \<in> dom (by_level st). the (by_level st k)) = total_logs st"
    by blast
  from inst st have sc: "(\<Sum>k \<in> dom (by_component st). the (by_component st k)) = total_logs st"
    by blast
  have t1: "total_logs st = 1" using t by (simp add: read_dir_a)
  have ne: "py ''INFO'' \<noteq> py ''ERROR''" by (simp add: py_def)
  have l1: "by_level st (py ''ERROR'') = Some 1"
    by (simp add: l read_dir_a entry_a_def)
  have l2: "by_level st (py ''INFO'') = None"
    using ne by (simp add: l read_dir_a entry_a_def)
  have c1: "by_component st (py ''auth'') = Some 1"
    by (simp add: c read_dir_a entry_a_def)
  have "get_log_stats demo_lib dir_a = Inr st \<and> total_logs st = 1 \<and>
     by_level st (py ''ERROR'') = Some 1 \<and> by_level st (py ''INFO'') = None \<and>
     by_component st (py ''auth'') = Some 1 \<and>
     (\<Sum>k \<in> dom (by_level st). the (by_level st k)) = 1 \<and>
     (\<Sum>k \<in> dom (by_component st). the (by_component st k)) = 1"
    using st t1 l1 l2 c1 sl sc by (simp only: simp_thms)
  then show ?thesis by (rule exI)
qed

section \<open>Order of the scan, read failures, empty filters\<close>

lemma length_filter_mset:
  "mset es' = mset es \<Longrightarrow> length (filter P es') = length (filter P es)"
proof -
  assume a: "mset es' = mset es"
  have "size (mset (filter P es')) = size (mset (filter P es))"
    by (simp only: mset_filter a)
  then show ?thesis by (simp only: size_mset)
qed

lemma count_logs_mset:
  assumes "mset es' = mset es"
  shows "count_logs 0 Map.empty Map.empty es' = count_logs 0 Map.empty Map.empty es"
proof -
  have s: "set es' = set es" using assms by (rule mset_eq_setD)
  have n: "length es' = length es" using assms by (rule mset_eq_length)
  show ?thesis
    by (simp only: stats_closed_form s n length_filter_mset [OF assms])
qed

lemma scan_files_no_failure:
  "snd (scan_files L files) = None \<longleftrightarrow>
     (\<forall>f \<in> set files. endswith (fst f) (py ''.log'') \<longrightarrow> snd (snd f) = None)"
proof (induction L files rule: scan_files.induct)
  case (1 L)
  show ?case by simp
next
  case (2 L name ls failure rest)
  show ?case
  proof (cases "endswith name (py ''.log'')")
    case False
    with 2 show ?thesis by simp
  next
    case True
    show ?thesis
    proof (cases failure)
      case (Some err)
      with True show ?thesis by auto
    next
      case None
      with True 2(1) [OF True None] show ?thesis
        by (cases "scan_files L rest") simp
    qed
  qed
qed

lemma mset_log_lines:
  "mset (log_lines files) =
     (\<Sum>f \<in># filter_mset (\<lambda>f. endswith (fst f) (py ''.log'')) (mset files). mset (fst (snd f)))"
proof -
  let ?fs = "filter (\<lambda>f. endswith (fst f) (py ''.log'')) files"
  have "mset (log_lines files) = sum_list (map (\<lambda>f. mset (fst (snd f))) ?fs)"
    by (simp add: log_lines_def mset_concat comp_def)
  also have "\<dots> = sum_mset (mset (map (\<lambda>f. mset (fst (snd f))) ?fs))"
    by (simp only: sum_mset_sum_list)
  finally show ?thesis by simp
qed

lemma mset_map_filter:
  "mset (List.map_filter f xs) = image_mset (\<lambda>x. the (f x)) (filter_mset (\<lambda>x. f x \<noteq> None) (mset xs))"
  by (simp add: List.map_filter_def comp_def)

lemma read_logs_permuted:
  assumes "mset files' = mset files" and "snd (read_logs L (Listing files)) = None"
  shows "snd (read_logs L (Listing files')) = None"
    and "mset (fst (read_logs L (Listing files'))) = mset (fst (read_logs L (Listing files)))"
proof -
  have s: "set files' = set files" using assms(1) by (rule mset_eq_setD)
  from assms(2) show ok: "snd (read_logs L (Listing files')) = None"
    by (simp add: scan_files_no_failure s)
  have "mset (log_lines files') = mset (log_lines files)"
    by (simp only: mset_log_lines assms(1))
  then have "mset (List.map_filter (parse_log_line L) (log_lines files'))
      = mset (List.map_filter (parse_log_line L) (log_lines files))"
    by (simp only: mset_map_filter)
  then show "mset (fst (read_logs L (Listing files'))) = mset (fst (read_logs L (Listing files)))"
    by (simp only: read_logs_lines [OF ok] read_logs_lines [OF assms(2)])
qed



lemma parse_bound_None:
  "parse_bound L t = None \<longleftrightarrow> (\<exists>s. t = Some s \<and> s \<noteq> [] \<and> parser_parse L s = None)"
  by (auto simp: parse_bound_def split: option.splits if_splits)

lemma parse_bound_empty: "parse_bound L (Some []) = parse_bound L None"
  by (simp add: parse_bound_def)

lemma skips_empty_level: "skips L (Some []) cp sd ed lg = skips L None cp sd ed lg"
  by (simp add: skips_def truthy_def)

lemma skips_empty_component: "skips L lv (Some []) sd ed lg = skips L lv None sd ed lg"
  by (simp add: skips_def truthy_def)

lemma filter_logs_cong:
  "(\<And>lg. skips L lv cp sd ed lg = skips L lv' cp' sd ed lg) \<Longrightarrow>
     filter_logs L lv cp sd ed es failure acc = filter_logs L lv' cp' sd ed es failure acc"
  by (induction es arbitrary: acc) (simp_all split: sum.splits bool.splits)

lemma dt_lt_Inl: "dt_lt L a b = Inl e \<Longrightarrow> \<exists>x. e = Raised x"
  by (auto simp: dt_lt_def split: option.splits)

lemma dt_gt_Inl: "dt_gt L a b = Inl e \<Longrightarrow> \<exists>x. e = Raised x"
  by (auto simp: dt_gt_def split: option.splits)

lemma skips_Inl: "skips L lv cp sd ed lg = Inl e \<Longrightarrow> \<exists>x. e = Raised x"
  by (auto simp: skips_def split: if_splits option.splits sum.splits bool.splits
      dest: dt_lt_Inl dt_gt_Inl)

lemma iso_copy_Inl: "iso_copy L lg = Inl e \<Longrightarrow> \<exists>x. e = Raised x"
  by (auto simp: iso_copy_def split: sum.splits)

lemma filter_logs_not_http:
  "filter_logs L lv cp sd ed es failure acc \<noteq> Inl (HTTPException c d)"
proof (induction es arbitrary: acc)
  case Nil
  show ?case by (simp split: option.splits)
next
  case (Cons lg es)
  have s: "skips L lv cp sd ed lg \<noteq> Inl (HTTPException c d)"
    using skips_Inl [of L lv cp sd ed lg "HTTPException c d"] by auto
  have i: "iso_copy L lg \<noteq> Inl (HTTPException c d)"
    using iso_copy_Inl [of L lg "HTTPException c d"] by auto
  from s i Cons show ?case by (auto split: sum.splits bool.splits)
qed

text \<open>
  Claim C10: the stats do not depend on the order in which the scan yields the
  entries. Two entry sequences with the same multiset of entries give the same
  totals and dicts, and so do two listings of the same files in a different order
  (when the first returns a result, the second returns the same one).
\<close>

theorem get_log_stats_order_independent:
  "(mset es' = mset es \<longrightarrow>
      count_logs 0 Map.empty Map.empty es' = count_logs 0 Map.empty Map.empty es) \<and>
   (mset files' = mset files \<and> get_log_stats L (Listing files) = Inr st \<longrightarrow>
      get_log_stats L (Listing files') = Inr st)"
proof (intro conjI impI)
  assume "mset es' = mset es"
  then show "count_logs 0 Map.empty Map.empty es' = count_logs 0 Map.empty Map.empty es"
    by (rule count_logs_mset)
next
  assume a: "mset files' = mset files \<and> get_log_stats L (Listing files) = Inr st"
  then have p: "mset files' = mset files" and ok: "snd (read_logs L (Listing files)) = None"
    and st: "st = count_logs 0 Map.empty Map.empty (fst (read_logs L (Listing files)))"
    by (simp_all add: get_log_stats_Inr)
  have ok': "snd (read_logs L (Listing files')) = None"
    using p ok by (rule read_logs_permuted)
  have "mset (fst (read_logs L (Listing files'))) = mset (fst (read_logs L (Listing files)))"
    using p ok by (rule read_logs_permuted)
  then have "count_logs 0 Map.empty Map.empty (fst (read_logs L (Listing files'))) = st"
    unfolding st by (rule count_logs_mset)
  with ok' show "get_log_stats L (Listing files') = Inr st"
    by (simp add: get_log_stats_Inr)
qed

theorem get_log_stats_order_independent_witness:
  "\<exists>st. get_log_stats demo_lib dir_ab = Inr st \<and> get_log_stats demo_lib dir_ba = Inr st \<and>
     count_logs 0 Map.empty Map.empty [entry_b, entry_a] = count_logs 0 Map.empty Map.empty [entry_a, entry_b]"
proof -
  let ?ab = "[(py ''a.log'', ([line_a, line_bad], None)),
              (py ''notes.txt'', ([line_b], None)),
              (py ''b.log'', ([line_b], None :: read_error option))]"
  let ?ba = "[(py ''b.log'', ([line_b], None)),
              (py ''notes.txt'', ([line_b], None)),
              (py ''a.log'', ([line_a, line_bad], None :: read_error option))]"
  have m: "mset ?ba = mset ?ab" by simp
  have e: "mset [entry_b, entry_a] = mset [entry_a, entry_b]" by simp
  obtain st where st: "get_log_stats demo_lib (Listing ?ab) = Inr st"
    using read_dir_ab by (simp add: get_log_stats_Inr dir_ab_def)
  note inst = get_log_stats_order_independent [of "[entry_b, entry_a]" "[entry_a, entry_b]" ?ba ?ab demo_lib st]
  from inst m st have b: "get_log_stats demo_lib (Listing ?ba) = Inr st" by blast
  from inst e have c: "count_logs 0 Map.empty Map.empty [entry_b, entry_a] = count_logs 0 Map.empty Map.empty [entry_a, entry_b]"
    by blast
  from st b c have "get_log_stats demo_lib dir_ab = Inr st \<and> get_log_stats demo_lib dir_ba = Inr st \<and>
     count_logs 0 Map.empty Map.empty [entry_b, entry_a] = count_logs 0 Map.empty Map.empty [entry_a, entry_b]"
    by (simp only: dir_ab_def dir_ba_def simp_thms)
  then show ?thesis by (rule exI)
qed




section \<open>The filter of \<open>get_logs\<close>\<close>



















lemma get_logs_dir_a_all:
  "get_logs demo_lib dir_a None None None None = Inr \<lparr>logs_count = 1, logs = [json_a]\<rparr>"
  by (simp add: get_logs_def parse_bound_def read_dir_a skips_def truthy_def iso_copy_entry_a)

lemma parse_bound_absent: "parse_bound L None = Some None" "parse_bound L (Some []) = Some None"
  by (simp_all add: parse_bound_def)

lemma parse_bound_t1:
  "parse_bound demo_lib (Some (py ''2024-01-01T10:00:00'')) = Some (Some (Naive 1704103200000000))"
  by (simp add: parse_bound_def demo_lib_def demo_parse_def py_def)

text \<open>
  Why the conditions on the library calls matter. A log line with an aware timestamp
  and a naive start bound make the comparison, and with it the request, raise
  \<open>TypeError\<close>; a log line whose timestamp has the offset \<open>+2500\<close> makes \<open>isoformat()\<close>,
  and with it the unfiltered listing, raise \<open>ValueError\<close>.
\<close>

lemma dt_lt_entry_z:
  "dt_lt demo_lib (timestamp entry_z) (Naive 1704103200000000) = Inl (Raised TypeError)"
  by (simp add: dt_lt_def demo_lib_def entry_z_def offset_in_range_def)

lemma get_logs_mixed_awareness:
  "get_logs demo_lib dir_z None None (Some (py ''2024-01-01T10:00:00'')) None =
     Inl (Raised TypeError)"
  by (simp add: get_logs_def parse_bound_t1 parse_bound_absent read_dir_z skips_def truthy_def
        dt_lt_entry_z)

lemma iso_copy_entry_far: "iso_copy demo_lib entry_far = Inl (Raised ValueError)"
  by (simp add: iso_copy_def demo_lib_def entry_far_def offset_in_range_def)

lemma get_logs_offset_out_of_range:
  "get_logs demo_lib dir_far None None None None = Inl (Raised ValueError)"
  by (simp add: get_logs_def parse_bound_absent read_dir_far skips_def truthy_def
        iso_copy_entry_far)




text \<open>
  Claim C4, as the code has it: when a start or end text that is not empty fails to
  parse, \<open>get_logs\<close> raises the 400 \<open>HTTPException\<close>, whatever the directory holds or
  does when read: the bounds are parsed before the scan starts.
\<close>

theorem get_logs_invalid_timestamp:
  "(start_time = Some s \<or> end_time = Some s) \<and> s \<noteq> [] \<and> parser_parse L s = None \<Longrightarrow>
     get_logs L fs lv cp start_time end_time = Inl (HTTPException 400 ''Invalid timestamp format'')"
proof -
  assume a: "(start_time = Some s \<or> end_time = Some s) \<and> s \<noteq> [] \<and> parser_parse L s = None"
  then have "parse_bound L start_time = None \<or> parse_bound L end_time = None"
    by (auto simp: parse_bound_None)
  then show ?thesis
    by (auto simp: get_logs_def split: option.splits)
qed

theorem get_logs_invalid_timestamp_witness:
  "py ''soon'' \<noteq> [] \<and> parser_parse demo_lib (py ''soon'') = None \<and>
   get_logs demo_lib (Unlistable OSError) None None (Some (py ''soon'')) None =
     Inl (HTTPException 400 ''Invalid timestamp format'') \<and>
   get_logs demo_lib dir_a None None (Some (py ''2024-01-01T10:00:00'')) (Some (py ''soon'')) =
     Inl (HTTPException 400 ''Invalid timestamp format'')"
proof -
  have h: "py ''soon'' \<noteq> [] \<and> parser_parse demo_lib (py ''soon'') = None"
    by (simp add: demo_lib_def demo_parse_def py_def)
  have a: "(Some (py ''soon'') = Some (py ''soon'') \<or> None = Some (py ''soon'')) \<and>
      py ''soon'' \<noteq> [] \<and> parser_parse demo_lib (py ''soon'') = None"
    using h by simp
  have b: "(Some (py ''2024-01-01T10:00:00'') = Some (py ''soon'') \<or> Some (py ''soon'') = Some (py ''soon'')) \<and>
      py ''soon'' \<noteq> [] \<and> parser_parse demo_lib (py ''soon'') = None"
    using h by simp
  from h get_logs_invalid_timestamp [OF a, of "Unlistable OSError" None None] get_logs_invalid_timestamp [OF b, of dir_a None None]
  show ?thesis by (simp only: simp_thms)
qed

text \<open>
  Claim C4 as worded covers every supplied text the parser rejects. The empty string
  is rejected by the parser, yet a start time supplied as the empty string raises
  nothing: the listing is returned unfiltered.
\<close>

theorem empty_bound_counterexample:
  "parser_parse demo_lib [] = None \<and>
   get_logs demo_lib dir_a None None (Some []) None =
     Inr \<lparr>logs_count = 1, logs = [json_a]\<rparr>"
  by (simp add: get_logs_def parse_bound_def read_dir_a skips_def truthy_def iso_copy_entry_a)
     (simp add: demo_lib_def demo_parse_def py_def)

text \<open>
  Claim C9: a level, component, start or end supplied as the empty string gives the
  same outcome as leaving that parameter out, and empty start and end texts never
  raise the 400 \<open>HTTPException\<close>.
\<close>

theorem get_logs_empty_string_absent:
  "get_logs L fs (Some []) cp st en = get_logs L fs None cp st en \<and>
   get_logs L fs lv (Some []) st en = get_logs L fs lv None st en \<and>
   get_logs L fs lv cp (Some []) en = get_logs L fs lv cp None en \<and>
   get_logs L fs lv cp st (Some []) = get_logs L fs lv cp st None \<and>
   get_logs L fs lv cp (Some []) (Some []) \<noteq> Inl (HTTPException 400 ''Invalid timestamp format'')"
proof (intro conjI)
  have l: "filter_logs L (Some []) cp sd ed es f acc = filter_logs L None cp sd ed es f acc" for sd ed es f acc
    by (rule filter_logs_cong) (rule skips_empty_level)
  show "get_logs L fs (Some []) cp st en = get_logs L fs None cp st en"
    by (simp only: get_logs_def l)
  have c: "filter_logs L lv (Some []) sd ed es f acc = filter_logs L lv None sd ed es f acc" for sd ed es f acc
    by (rule filter_logs_cong) (rule skips_empty_component)
  show "get_logs L fs lv (Some []) st en = get_logs L fs lv None st en"
    by (simp only: get_logs_def c)
  show "get_logs L fs lv cp (Some []) en = get_logs L fs lv cp None en"
    by (simp only: get_logs_def parse_bound_empty)
  show "get_logs L fs lv cp st (Some []) = get_logs L fs lv cp st None"
    by (simp only: get_logs_def parse_bound_empty)
  show "get_logs L fs lv cp (Some []) (Some []) \<noteq> Inl (HTTPException 400 ''Invalid timestamp format'')"
    using filter_logs_not_http [of L lv cp None None _ _ "[]" 400 "''Invalid timestamp format''"]
    by (cases "read_logs L fs") (auto simp: get_logs_def parse_bound_def split: sum.splits)
qed

theorem get_logs_empty_string_absent_witness:
  "get_logs demo_lib dir_a (Some []) (Some []) (Some []) (Some []) =
     Inr \<lparr>logs_count = 1, logs = [json_a]\<rparr>"
proof -
  have "get_logs demo_lib dir_a (Some []) (Some []) (Some []) (Some []) =
      get_logs demo_lib dir_a None (Some []) (Some []) (Some [])"
    using get_logs_empty_string_absent [where L = demo_lib and fs = dir_a and cp = "Some []" and st = "Some []"
        and en = "Some []"] by blast
  also have "\<dots> = get_logs demo_lib dir_a None None (Some []) (Some [])"
    using get_logs_empty_string_absent [where L = demo_lib and fs = dir_a and lv = None and st = "Some []"
        and en = "Some []"] by blast
  also have "\<dots> = get_logs demo_lib dir_a None None None (Some [])"
    using get_logs_empty_string_absent [where L = demo_lib and fs = dir_a and lv = None and cp = None
        and en = "Some []"] by blast
  also have "\<dots> = get_logs demo_lib dir_a None None None None"
    using get_logs_empty_string_absent [where L = demo_lib and fs = dir_a and lv = None and cp = None
        and st = None] by blast
  finally show ?thesis by (simp only: get_logs_dir_a_all)
qed

end
